theory Spec2Isabelle
  imports Complex_Main "HOL-Library.Multiset" "HOL-Library.Char_ord" "HOL-Library.List_Lexorder"
begin

section \<open>Values under reflection\<close>

text \<open>
  The dumper of package utter (dump.go, walk.go) inspects Go values through package
  reflect.  A reflected value is modelled by the datatype \<open>val\<close>: one constructor per
  group of kinds that the switch of \<open>dump\<close> treats alike, each carrying the value's type
  (what \<open>Type().PkgPath()\<close>, \<open>Type().Name()\<close> and \<open>Type().String()\<close> return) and its payload.
  A non-nil pointer carries the address that \<open>Pointer()\<close> returns; \<open>Elem()\<close> reads the
  memory at that address, so shared and cyclic pointers are expressible.
\<close>

datatype kind = Invalid | Bool | IntKind | Int8 | Int16 | Int32 | Int64
  | Uint | Uint8 | Uint16 | Uint32 | Uint64 | Uintptr
  | Float32 | Float64 | Complex64 | Complex128
  | Array | Chan | Func | Interface | Map | Ptr | Slice | String | Struct | UnsafePointer
  | Other nat

record rtype =
  PkgPath :: string
  Name :: string
  typeString :: string

text \<open>Floating-point payloads: only their order (for key sorting) is looked at here;
  their text is produced by \<open>printFloat\<close>, which is not part of dump.go.\<close>

datatype gofloat = Finite rat | PosInf | NegInf | NaN

datatype intKind = I | I8 | I16 | I32 | I64
datatype uintKind = U | U8 | U16 | U32 | U64
datatype floatKind = F32 | F64
datatype complexKind = C64 | C128
datatype handleKind = HUnsafePointer | HChan | HFunc

text \<open>A struct field as \<open>Type().Field(i)\<close> describes it: its name and its \<open>PkgPath\<close>,
  which is empty exactly for exported fields.\<close>

record structField =
  fieldName :: string
  fieldPkgPath :: string

datatype val =
    VInvalid
  | VBool rtype bool
  | VInt rtype intKind int
  | VUint rtype uintKind nat
  | VUintptr rtype nat
  | VFloat rtype floatKind gofloat
  | VComplex rtype complexKind gofloat gofloat
  | VString rtype string
  | VPtr rtype "nat option"
  | VInterface rtype "val option"
  | VSlice rtype "val list option"
  | VArray rtype "val list"
  | VMap rtype "(val \<times> val) list option"
  | VStruct rtype "(structField \<times> val) list"
  | VHandle rtype handleKind nat
  | VOther rtype nat bool

type_synonym heap = "nat \<Rightarrow> val"

fun Kind :: "val \<Rightarrow> kind" where
  "Kind VInvalid = Invalid"
| "Kind (VBool t b) = Bool"
| "Kind (VInt t k i) = (case k of I \<Rightarrow> IntKind | I8 \<Rightarrow> Int8 | I16 \<Rightarrow> Int16 | I32 \<Rightarrow> Int32 | I64 \<Rightarrow> Int64)"
| "Kind (VUint t k u) = (case k of U \<Rightarrow> Uint | U8 \<Rightarrow> Uint8 | U16 \<Rightarrow> Uint16 | U32 \<Rightarrow> Uint32 | U64 \<Rightarrow> Uint64)"
| "Kind (VUintptr t u) = Uintptr"
| "Kind (VFloat t k f) = (case k of F32 \<Rightarrow> Float32 | F64 \<Rightarrow> Float64)"
| "Kind (VComplex t k re im) = (case k of C64 \<Rightarrow> Complex64 | C128 \<Rightarrow> Complex128)"
| "Kind (VString t s) = String"
| "Kind (VPtr t p) = Ptr"
| "Kind (VInterface t x) = Interface"
| "Kind (VSlice t xs) = Slice"
| "Kind (VArray t xs) = Array"
| "Kind (VMap t kvs) = Map"
| "Kind (VStruct t fs) = Struct"
| "Kind (VHandle t k p) = (case k of HUnsafePointer \<Rightarrow> UnsafePointer | HChan \<Rightarrow> Chan | HFunc \<Rightarrow> Func)"
| "Kind (VOther t k ci) = Other k"

text \<open>\<open>Type()\<close> panics on the zero Value; every other value has a type.\<close>

datatype error = OutOfFuel | Panic string

fun Type :: "val \<Rightarrow> error + rtype" where
  "Type VInvalid = Inl (Panic ''reflect: call of reflect.Value.Type on zero Value'')"
| "Type (VBool t b) = Inr t"
| "Type (VInt t k i) = Inr t"
| "Type (VUint t k u) = Inr t"
| "Type (VUintptr t u) = Inr t"
| "Type (VFloat t k f) = Inr t"
| "Type (VComplex t k re im) = Inr t"
| "Type (VString t s) = Inr t"
| "Type (VPtr t p) = Inr t"
| "Type (VInterface t x) = Inr t"
| "Type (VSlice t xs) = Inr t"
| "Type (VArray t xs) = Inr t"
| "Type (VMap t kvs) = Inr t"
| "Type (VStruct t fs) = Inr t"
| "Type (VHandle t k p) = Inr t"
| "Type (VOther t k ci) = Inr t"

section \<open>Results, sequencing and loops\<close>

text \<open>
  The Go functions return nothing and mutate the \<open>dumpState\<close> they are called on.  The
  model passes the state explicitly and returns \<open>Inr\<close> of the new state.  \<open>Inl\<close> is a
  run-time panic of a library call, or \<open>OutOfFuel\<close>: the recursion and the pointer loop
  need not end, so they are bounded by a fuel argument, and a run that exhausts every
  amount of fuel is a run that never returns.
\<close>

definition andThen :: "error + 'a \<Rightarrow> ('a \<Rightarrow> error + 'b) \<Rightarrow> error + 'b" where
  "andThen r f = (case r of Inl e \<Rightarrow> Inl e | Inr x \<Rightarrow> f x)"

fun forEach :: "'a list \<Rightarrow> ('a \<Rightarrow> 's \<Rightarrow> error + 's) \<Rightarrow> 's \<Rightarrow> error + 's" where
  "forEach [] f s = Inr s"
| "forEach (x # xs) f s = andThen (f x s) (forEach xs f)"

section \<open>Configuration and state\<close>

text \<open>The options of \<open>ConfigState\<close> that dump.go and walk.go read.\<close>

record ConfigState =
  Indent :: string
  SortKeys :: bool
  IgnoreUnexported :: bool
  ElideType :: bool
  BytesWidth :: int
  CommentBytes :: bool
  CommentPointers :: bool

text \<open>\<open>dumpState\<close> of dump.go, with the writer as the text written so far and with the
  \<open>nodes\<close> set that walk.go records into (keyed by address and type).\<close>

record dumpState =
  w :: string
  depth :: int
  pointers :: "nat \<rightharpoonup> int"
  ignoreNextType :: bool
  ignoreNextIndent :: bool
  cs :: ConfigState
  nodes :: "(nat \<times> rtype) set"

definition Write :: "string \<Rightarrow> dumpState \<Rightarrow> dumpState" where
  "Write bs d = d\<lparr>w := w d @ bs\<rparr>"

section \<open>Byte constants and helpers that dump.go takes from the rest of the package\<close>

text \<open>
  The byte-slice constants are declared outside dump.go.  Those below are fixed by the
  expected outputs of the package's tests (\<open>"int8(127)\n"\<close>, \<open>"uint8(0x40)\n"\<close>,
  \<open>"&float64(1)\n"\<close>,
  \<open>"map[interface{}]interface{}{\n \"one\": nil,\n}\n"\<close>).
\<close>

definition openParenBytes :: string where "openParenBytes = ''(''"
definition closeParenBytes :: string where "closeParenBytes = '')''"
definition nilBytes :: string where "nilBytes = ''nil''"
definition ampersandBytes :: string where "ampersandBytes = ''&''"
definition interfaceBytes :: string where "interfaceBytes = ''interface{}''"
definition interfaceTypeBytes :: string where "interfaceTypeBytes = ''interface {}''"
definition hexZeroBytes :: string where "hexZeroBytes = ''0x''"
definition colonSpaceBytes :: string where "colonSpaceBytes = '': ''"
definition closeBraceBytes :: string where "closeBraceBytes = ''}''"
definition newlineBytes :: string where "newlineBytes = [CHR 0x0A]"
definition commaNewlineBytes :: string where "commaNewlineBytes = [CHR '','', CHR 0x0A]"
definition openBraceNewlineBytes :: string where "openBraceNewlineBytes = [CHR ''{'', CHR 0x0A]"

text \<open>
  The remaining constants and the printing helpers are parameters of the model: the
  markers whose bytes no test under inspection fixes, the scalar printers and the
  hexdump of the package, \<open>strconv.Quote\<close>, the \<open>%v\<close> verb of \<open>fmt\<close>, and
  \<open>Convert(uint8Type).Uint()\<close> of reflect.
\<close>

record common =
  circularBytes :: string
  invalidAngleBytes :: string
  openCommentBytes :: string
  closeCommentBytes :: string
  pointerChainBytes :: string
  printBool :: "bool \<Rightarrow> string"
  printInt :: "int \<Rightarrow> nat \<Rightarrow> string"
  printUint :: "nat \<Rightarrow> nat \<Rightarrow> string"
  printFloat :: "gofloat \<Rightarrow> nat \<Rightarrow> bool \<Rightarrow> string"
  printComplex :: "gofloat \<Rightarrow> gofloat \<Rightarrow> nat \<Rightarrow> string"
  printHexPtr :: "nat \<Rightarrow> bool \<Rightarrow> string"
  hexDump :: "nat list \<Rightarrow> string \<Rightarrow> int \<Rightarrow> bool \<Rightarrow> string"
  Quote :: "string \<Rightarrow> string"
  fmtV :: "val \<Rightarrow> string"
  convertUint8 :: "val \<Rightarrow> nat"

text \<open>\<open>bytes.Replace(s, old, new, -1)\<close> for a non-empty \<open>old\<close>: every non-overlapping
  occurrence, from the left.\<close>

fun bytesReplace :: "string \<Rightarrow> string \<Rightarrow> string \<Rightarrow> string" where
  "bytesReplace [] old new = []"
| "bytesReplace (c # s) old new =
     (if old \<noteq> [] \<and> take (length old) (c # s) = old
      then new @ bytesReplace (drop (length old) (c # s)) old new
      else c # bytesReplace s old new)"

section \<open>Small helpers of dump.go\<close>

text \<open>\<open>bytes.Repeat\<close> and \<open>strings.Repeat\<close> panic on a negative count.\<close>

definition Repeat :: "string \<Rightarrow> int \<Rightarrow> error + string" where
  "Repeat b cnt =
     (if cnt < 0 then Inl (Panic ''bytes: negative Repeat count'')
      else Inr (concat (replicate (nat cnt) b)))"

text \<open>\<open>indent\<close> (dump.go, lines 62-68).\<close>

definition indent :: "dumpState \<Rightarrow> error + dumpState" where
  "indent d =
     (if ignoreNextIndent d then Inr (d\<lparr>ignoreNextIndent := False\<rparr>)
      else andThen (Repeat (Indent (cs d)) (depth d)) (\<lambda>bs. Inr (Write bs d)))"

text \<open>\<open>IsNil\<close> for the kinds it is asked of here.\<close>

fun IsNil :: "val \<Rightarrow> bool" where
  "IsNil (VPtr t None) = True"
| "IsNil (VInterface t None) = True"
| "IsNil (VSlice t None) = True"
| "IsNil (VMap t None) = True"
| "IsNil v = False"

text \<open>\<open>unpackValue\<close> (dump.go, lines 73-78): the value inside a non-nil interface, whether
  the value passed in is a pointer, and whether its type is the static one.\<close>

definition unpackValue :: "val \<Rightarrow> val \<times> bool \<times> bool" where
  "unpackValue v =
     (case v of
        VInterface t (Some x) \<Rightarrow> (x, Kind v = Ptr, False)
      | _ \<Rightarrow> (v, Kind v = Ptr, True))"

text \<open>\<open>isDefault\<close> and \<open>isCompound\<close> (dump.go, lines 419-430).  The kind of the type is
  passed beside it, since \<open>rtype\<close> holds the names only.\<close>

definition isDefault :: "rtype \<Rightarrow> kind \<Rightarrow> bool" where
  "isDefault typ kind =
     (if PkgPath typ \<noteq> [] \<or> Name typ = [] then False
      else kind = IntKind \<or> kind = Float64 \<or> kind = String \<or> kind = Bool)"

definition isCompound :: "kind \<Rightarrow> bool" where
  "isCompound kind = (kind = Struct \<or> kind = Slice \<or> kind = Array \<or> kind = Map)"

text \<open>The value of \<open>wantType\<close> that \<open>dump\<close> computes (dump.go, lines 264-269).\<close>

definition wantTypeOf :: "ConfigState \<Rightarrow> val \<Rightarrow> rtype \<Rightarrow> bool \<Rightarrow> bool \<Rightarrow> bool" where
  "wantTypeOf c v typ wasPtr static =
     (if ElideType c
      then (let defType = \<not> wasPtr \<and> isDefault typ (Kind v)
            in (\<not> (static \<or> defType) \<or> isCompound (Kind v))
               \<and> \<not> (Kind v = Interface \<and> IsNil v))
      else True)"

text \<open>The kinds after whose type name no parenthesis is written (dump.go, lines 282-287
  and 410-415).\<close>

definition noParen :: "kind \<Rightarrow> bool" where
  "noParen kind = (kind = Invalid \<or> kind = Struct \<or> kind = Slice \<or> kind = Array \<or> kind = Map)"

section \<open>The pointer tracker\<close>

text \<open>The purge at the head of \<open>dumpPtr\<close> and \<open>walkPtr\<close> (dump.go, lines 84-88; walk.go,
  lines 26-30): every entry recorded at the current depth or deeper is deleted.\<close>

definition purge :: "(nat \<rightharpoonup> int) \<Rightarrow> int \<Rightarrow> (nat \<rightharpoonup> int)" where
  "purge ps dp =
     (\<lambda>k. case ps k of None \<Rightarrow> None
                     | Some depth' \<Rightarrow> if depth' \<ge> dp then None else Some depth')"

text \<open>The end of the loop body (dump.go, lines 117-124; walk.go, lines 47-54), applied to
  the value \<open>ve.Elem()\<close> that the pointer refers to: an interface is unpacked, and \<open>None\<close>
  is the nil interface, at which the loop breaks.\<close>

definition unwrapElem :: "val \<Rightarrow> val option" where
  "unwrapElem e = (case e of VInterface t x \<Rightarrow> x | _ \<Rightarrow> Some e)"

text \<open>The local variables of \<open>dumpPtr\<close> that its loop updates.\<close>

record ptrLocals =
  ve :: val
  pointerChain :: "nat list"
  indirects :: int
  nilFound :: bool
  cycleFound :: bool

text \<open>The loop of \<open>dumpPtr\<close> (dump.go, lines 100-125).  One unit of fuel per iteration
  entered.\<close>

fun derefLoop :: "nat \<Rightarrow> heap \<Rightarrow> dumpState \<Rightarrow> ptrLocals \<Rightarrow> error + (dumpState \<times> ptrLocals)" where
  "derefLoop 0 h d l = (if Kind (ve l) = Ptr then Inl OutOfFuel else Inr (d, l))"
| "derefLoop (Suc n) h d l =
     (case ve l of
        VPtr t None \<Rightarrow> Inr (d, l\<lparr>nilFound := True\<rparr>)
      | VPtr t (Some addr) \<Rightarrow>
          (let l = l\<lparr>indirects := indirects l + 1\<rparr>;
               l = (if CommentPointers (cs d)
                    then l\<lparr>pointerChain := pointerChain l @ [addr]\<rparr> else l)
           in if (case pointers d addr of Some pd \<Rightarrow> pd < depth d | None \<Rightarrow> False)
              then Inr (d, l\<lparr>cycleFound := True, indirects := indirects l - 1\<rparr>)
              else
                (let d = d\<lparr>pointers := (pointers d)(addr \<mapsto> depth d)\<rparr>
                 in (case unwrapElem (h addr) of
                       None \<Rightarrow> Inr (d, l\<lparr>ve := h addr, nilFound := True\<rparr>)
                     | Some x \<Rightarrow> derefLoop n h d (l\<lparr>ve := x\<rparr>))))
      | _ \<Rightarrow> Inr (d, l))"

section \<open>Sorting of map keys\<close>

text \<open>
  Modelled from the spec: \<open>sortValues\<close> and its comparison are called by \<open>dump\<close> but
  declared outside dump.go.  The spec (4.3) orders keys ``using native ordering for
  naturally-ordered scalar kinds (boolean, all integer widths, floating point, text)''
  and falls back ``for all other key kinds, to ordering by each key's own rendered
  textual form''; the package documentation names that form: ``other types sorted
  according to the reflect.Value.String() output''.  \<open>Value.String()\<close> is the string
  itself for a string and \<open><T Value>\<close>, with T the type, for every other value.  The sort
  is an insertion sort that keeps the order of keys that compare equal.
\<close>

fun ValueString :: "val \<Rightarrow> string" where
  "ValueString (VString t s) = s"
| "ValueString v =
     (case Type v of Inl e \<Rightarrow> ''<invalid Value>''
                   | Inr t \<Rightarrow> ''<'' @ typeString t @ '' Value>'')"

fun floatLess :: "gofloat \<Rightarrow> gofloat \<Rightarrow> bool" where
  "floatLess (Finite a) (Finite b) = (a < b)"
| "floatLess (Finite a) PosInf = True"
| "floatLess NegInf (Finite b) = True"
| "floatLess NegInf PosInf = True"
| "floatLess a b = False"

definition valueSortLess :: "val \<Rightarrow> val \<Rightarrow> bool" where
  "valueSortLess a b =
     (case a of
        VBool t x \<Rightarrow> (case b of VBool t' y \<Rightarrow> \<not> x \<and> y | _ \<Rightarrow> ValueString a < ValueString b)
      | VInt t k x \<Rightarrow> (case b of VInt t' k' y \<Rightarrow> x < y | _ \<Rightarrow> ValueString a < ValueString b)
      | VUint t k x \<Rightarrow> (case b of VUint t' k' y \<Rightarrow> x < y | _ \<Rightarrow> ValueString a < ValueString b)
      | VUintptr t x \<Rightarrow> (case b of VUintptr t' y \<Rightarrow> x < y | _ \<Rightarrow> ValueString a < ValueString b)
      | VFloat t k x \<Rightarrow>
          (case b of VFloat t' k' y \<Rightarrow> floatLess x y | _ \<Rightarrow> ValueString a < ValueString b)
      | VString t x \<Rightarrow> (case b of VString t' y \<Rightarrow> x < y | _ \<Rightarrow> ValueString a < ValueString b)
      | _ \<Rightarrow> ValueString a < ValueString b)"

fun insertValue :: "val \<Rightarrow> val list \<Rightarrow> val list" where
  "insertValue x [] = [x]"
| "insertValue x (y # ys) =
     (if valueSortLess y x then y # insertValue x ys else x # y # ys)"

definition sortValues :: "val list \<Rightarrow> val list" where
  "sortValues keys = foldr insertValue keys []"

text \<open>\<open>MapKeys\<close> and \<open>MapIndex\<close> of reflect on a map given by its entries in the order in
  which this run iterates over them; \<open>MapIndex\<close> of a key that is absent is the zero
  Value.\<close>

definition MapKeys :: "(val \<times> val) list \<Rightarrow> val list" where
  "MapKeys kvs = map fst kvs"

definition MapIndex :: "(val \<times> val) list \<Rightarrow> val \<Rightarrow> val" where
  "MapIndex kvs key = (case map_of kvs key of None \<Rightarrow> VInvalid | Some x \<Rightarrow> x)"

section \<open>Byte slices and arrays\<close>

text \<open>The three regular expressions of dump.go (lines 38-47) have the form
  \<open>^.*\._Ctype_X$\<close>: the text ends with \<open>._Ctype_X\<close> and has no newline before it.\<close>

definition matchSuffix :: "string \<Rightarrow> string \<Rightarrow> bool" where
  "matchSuffix suf s =
     (length suf \<le> length s \<and> drop (length s - length suf) s = suf
      \<and> CHR 0x0A \<notin> set (take (length s - length suf) s))"

definition cCharRE :: "string \<Rightarrow> bool" where
  "cCharRE = matchSuffix ''._Ctype_char''"
definition cUnsignedCharRE :: "string \<Rightarrow> bool" where
  "cUnsignedCharRE = matchSuffix ''._Ctype_unsignedchar''"
definition cUint8tCharRE :: "string \<Rightarrow> bool" where
  "cUint8tCharRE = matchSuffix ''._Ctype_uint8_t''"

text \<open>\<open>ConvertibleTo(uint8Type)\<close>: Go converts the integer and floating-point kinds to
  \<open>uint8\<close>, and no other kind.\<close>

definition ConvertibleToUint8 :: "kind \<Rightarrow> bool" where
  "ConvertibleToUint8 k =
     (k \<in> {IntKind, Int8, Int16, Int32, Int64, Uint, Uint8, Uint16, Uint32, Uint64, Uintptr,
            Float32, Float64})"

text \<open>Whether \<open>vs.Slice(0, n).Interface()\<close> is a \<open>[]uint8\<close>: the element type is \<open>uint8\<close>
  itself and the value is an array or a slice of unnamed type.\<close>

definition isUint8Slice :: "val \<Rightarrow> rtype \<Rightarrow> bool" where
  "isUint8Slice v vt =
     (PkgPath vt = [] \<and> Name vt = ''uint8''
      \<and> (case v of VArray t xs \<Rightarrow> True | VSlice t xs \<Rightarrow> Name t = [] | _ \<Rightarrow> False))"

fun uintOf :: "val \<Rightarrow> nat" where
  "uintOf (VUint t k u) = u"
| "uintOf v = 0"

text \<open>The decision at the head of \<open>dumpSlice\<close> (dump.go, lines 172-228): \<open>Some buf\<close> when the
  elements are to be hexdumped as the bytes \<open>buf\<close>.\<close>

definition hexBuffer :: "common \<Rightarrow> val \<Rightarrow> val list \<Rightarrow> error + nat list option" where
  "hexBuffer cm v xs =
     (case xs of
        [] \<Rightarrow> Inr None
      | x0 # rest \<Rightarrow>
          andThen (Type x0) (\<lambda>vt.
            let vts = typeString vt in
            if cCharRE vts \<or> cUnsignedCharRE vts \<or> cUint8tCharRE vts
            then Inr (if ConvertibleToUint8 (Kind x0)
                      then Some (map (convertUint8 cm) xs) else None)
            else if Kind x0 = Uint8
            then (if isUint8Slice v vt then Inr (Some (map uintOf xs))
                  else Inr (if ConvertibleToUint8 (Kind x0)
                            then Some (map (convertUint8 cm) xs) else None))
            else Inr None))"

text \<open>The comment with the chain of addresses (dump.go, lines 139-148).\<close>

fun writeChain :: "common \<Rightarrow> nat \<Rightarrow> nat list \<Rightarrow> dumpState \<Rightarrow> dumpState" where
  "writeChain cm i [] d = d"
| "writeChain cm i (addr # as) d =
     writeChain cm (Suc i) as
       (Write (printHexPtr cm addr True) (if i > 0 then Write (pointerChainBytes cm) d else d))"

section \<open>dumpPtr, dumpSlice and dump\<close>

text \<open>
  The three mutually recursive methods of dump.go: \<open>dumpPtr\<close> (lines 81-164),
  \<open>dumpSlice\<close> (lines 168-243, called on the elements \<open>xs\<close> of the slice or array \<open>v\<close>)
  and \<open>dump\<close> (lines 249-416).  Each body is written once, over the function \<open>rec\<close>
  that stands for its recursive calls of \<open>d.dump\<close>; the recursion is then closed by
  fuel, one unit for each nested call of \<open>dump\<close>.
\<close>

type_synonym dumpFn = "dumpState \<Rightarrow> val \<Rightarrow> bool \<Rightarrow> bool \<Rightarrow> error + dumpState"

text \<open>\<open>d.dump(d.unpackValue(x))\<close>.\<close>

definition dumpUnpacked :: "dumpFn \<Rightarrow> dumpState \<Rightarrow> val \<Rightarrow> error + dumpState" where
  "dumpUnpacked rec d x =
     (case unpackValue x of (x', wasPtr, static) \<Rightarrow> rec d x' wasPtr static)"

definition dumpPtrWith :: "dumpFn \<Rightarrow> nat \<Rightarrow> common \<Rightarrow> heap \<Rightarrow> dumpState \<Rightarrow> val \<Rightarrow> error + dumpState" where
  "dumpPtrWith rec n cm h d v =
     (let d = d\<lparr>pointers := purge (pointers d) (depth d)\<rparr> in
      andThen (derefLoop n h d
                 \<lparr>ve = v, pointerChain = [], indirects = 0, nilFound = False, cycleFound = False\<rparr>)
        (\<lambda>(d, l).
      andThen (Repeat ampersandBytes (indirects l)) (\<lambda>amps.
      andThen (Type (ve l)) (\<lambda>typ.
        let d = Write amps d;
            typeBytes = typeString typ
        in if typeBytes = [] then Inl (Panic ''index out of range'')
           else
            (let d = (if hd typeBytes = CHR ''*'' then Write openParenBytes d else d);
                 d = Write (bytesReplace typeBytes interfaceTypeBytes interfaceBytes) d;
                 d = (if hd typeBytes = CHR ''*'' then Write closeParenBytes d else d);
                 d = (if length (pointerChain l) > 0
                      then Write (closeCommentBytes cm)
                             (writeChain cm 0 (pointerChain l) (Write (openCommentBytes cm) d))
                      else d)
             in if nilFound l
                then Inr (Write closeParenBytes (Write nilBytes (Write openParenBytes d)))
                else if cycleFound l
                then Inr (Write (circularBytes cm) d)
                else rec (d\<lparr>ignoreNextType := True\<rparr>) (ve l) True False)))))"

definition dumpSliceWith :: "dumpFn \<Rightarrow> common \<Rightarrow> dumpState \<Rightarrow> val \<Rightarrow> val list \<Rightarrow> error + dumpState" where
  "dumpSliceWith rec cm d v xs =
     andThen (hexBuffer cm v xs) (\<lambda>hex.
       case hex of
         Some buf \<Rightarrow>
           andThen (Repeat (Indent (cs d)) (depth d)) (\<lambda>ind.
             Inr (Write (hexDump cm buf ind (BytesWidth (cs d)) (CommentBytes (cs d))) d))
       | None \<Rightarrow>
           forEach xs (\<lambda>vi d.
             andThen (dumpUnpacked rec d vi) (\<lambda>d. Inr (Write commaNewlineBytes d))) d)"

text \<open>The arms of the switch of \<open>dump\<close> that open a brace block.\<close>

definition dumpElems :: "dumpFn \<Rightarrow> common \<Rightarrow> dumpState \<Rightarrow> val \<Rightarrow> val list \<Rightarrow> error + dumpState" where
  "dumpElems rec cm d v xs =
     (let d = Write openBraceNewlineBytes d;
          d = d\<lparr>depth := depth d + 1\<rparr>
      in andThen (dumpSliceWith rec cm d v xs) (\<lambda>d.
         andThen (indent (d\<lparr>depth := depth d - 1\<rparr>)) (\<lambda>d.
           Inr (Write closeBraceBytes d))))"

definition dumpMap :: "dumpFn \<Rightarrow> dumpState \<Rightarrow> (val \<times> val) list \<Rightarrow> error + dumpState" where
  "dumpMap rec d kvs =
     (let d = Write openBraceNewlineBytes d;
          d = d\<lparr>depth := depth d + 1\<rparr>;
          keys = MapKeys kvs;
          keys = (if SortKeys (cs d) then sortValues keys else keys)
      in andThen
          (forEach keys (\<lambda>key d.
             andThen (dumpUnpacked rec d key) (\<lambda>d.
             let d = Write colonSpaceBytes d;
                 d = d\<lparr>ignoreNextIndent := True\<rparr>
             in andThen (dumpUnpacked rec d (MapIndex kvs key)) (\<lambda>d.
                Inr (Write commaNewlineBytes d)))) d) (\<lambda>d.
         andThen (indent (d\<lparr>depth := depth d - 1\<rparr>)) (\<lambda>d.
           Inr (Write closeBraceBytes d))))"

definition dumpStruct :: "dumpFn \<Rightarrow> dumpState \<Rightarrow> (structField \<times> val) list \<Rightarrow> error + dumpState" where
  "dumpStruct rec d fs =
     (let d = Write openBraceNewlineBytes d;
          d = d\<lparr>depth := depth d + 1\<rparr>
      in andThen
          (forEach fs (\<lambda>(vtf, fv) d.
             if IgnoreUnexported (cs d) \<and> fieldPkgPath vtf \<noteq> [] then Inr d
             else
              andThen (indent d) (\<lambda>d.
              let d = Write (fieldName vtf) d;
                  d = Write colonSpaceBytes d;
                  d = d\<lparr>ignoreNextIndent := True\<rparr>
              in andThen (dumpUnpacked rec d fv) (\<lambda>d.
                 Inr (Write commaNewlineBytes d)))) d) (\<lambda>d.
         andThen (indent (d\<lparr>depth := depth d - 1\<rparr>)) (\<lambda>d.
           Inr (Write closeBraceBytes d))))"

text \<open>The switch on the kind (dump.go, lines 288-408).\<close>

definition dumpSwitch :: "dumpFn \<Rightarrow> common \<Rightarrow> dumpState \<Rightarrow> val \<Rightarrow> bool \<Rightarrow> error + dumpState" where
  "dumpSwitch rec cm d v wantType =
     (case v of
        VInvalid \<Rightarrow> Inr d
      | VBool t b \<Rightarrow> Inr (Write (printBool cm b) d)
      | VInt t k i \<Rightarrow> Inr (Write (printInt cm i 10) d)
      | VUint t k u \<Rightarrow> Inr (Write (printUint cm u 16) (Write hexZeroBytes d))
      | VFloat t k f \<Rightarrow>
          Inr (Write (printFloat cm f (case k of F32 \<Rightarrow> 32 | F64 \<Rightarrow> 64) (\<not> wantType)) d)
      | VComplex t k re im \<Rightarrow>
          Inr (Write (printComplex cm re im (case k of C64 \<Rightarrow> 32 | C128 \<Rightarrow> 64)) d)
      | VSlice t None \<Rightarrow> Inr (Write closeParenBytes (Write nilBytes (Write openParenBytes d)))
      | VSlice t (Some xs) \<Rightarrow> dumpElems rec cm d v xs
      | VArray t xs \<Rightarrow> dumpElems rec cm d v xs
      | VString t s \<Rightarrow> Inr (Write (Quote cm s) d)
      | VInterface t x \<Rightarrow> Inr (if IsNil v then Write nilBytes d else d)
      | VPtr t p \<Rightarrow> Inr d
      | VMap t None \<Rightarrow> Inr (Write closeParenBytes (Write nilBytes (Write openParenBytes d)))
      | VMap t (Some kvs) \<Rightarrow> dumpMap rec d kvs
      | VStruct t fs \<Rightarrow> dumpStruct rec d fs
      | VUintptr t u \<Rightarrow> Inr (Write (printHexPtr cm u False) d)
      | VHandle t k p \<Rightarrow> Inr (Write (printHexPtr cm p True) d)
      | VOther t k canInterface \<Rightarrow>
          Inr (Write (if canInterface then fmtV cm v else ValueString v) d))"

definition dumpWith :: "dumpFn \<Rightarrow> nat \<Rightarrow> common \<Rightarrow> heap \<Rightarrow> dumpFn" where
  "dumpWith rec n cm h d v wasPtr static =
     (let kind = Kind v in
      if kind = Invalid then Inr (Write (invalidAngleBytes cm) d)
      else if kind = Ptr then andThen (indent d) (\<lambda>d. dumpPtrWith rec n cm h d v)
      else
       andThen (Type v) (\<lambda>typ.
        let wantType = wantTypeOf (cs d) v typ wasPtr static in
        andThen (if \<not> ignoreNextType d
                 then andThen (indent d) (\<lambda>d.
                        Inr (if wantType
                             then Write (bytesReplace (typeString typ) interfaceTypeBytes
                                           interfaceBytes) d
                             else d))
                 else Inr d) (\<lambda>d.
        let d = d\<lparr>ignoreNextType := False\<rparr>;
            d = (if wantType \<and> \<not> noParen kind then Write openParenBytes d else d)
        in andThen (dumpSwitch rec cm d v wantType) (\<lambda>d.
             Inr (if wantType \<and> \<not> noParen kind then Write closeParenBytes d else d)))))"

fun dump :: "nat \<Rightarrow> common \<Rightarrow> heap \<Rightarrow> dumpFn" where
  "dump 0 cm h d v wasPtr static = Inl OutOfFuel"
| "dump (Suc n) cm h d v wasPtr static = dumpWith (dump n cm h) n cm h d v wasPtr static"

definition dumpPtr :: "nat \<Rightarrow> common \<Rightarrow> heap \<Rightarrow> dumpState \<Rightarrow> val \<Rightarrow> error + dumpState" where
  "dumpPtr n cm h d v = dumpPtrWith (dump n cm h) n cm h d v"

definition dumpSlice :: "nat \<Rightarrow> common \<Rightarrow> heap \<Rightarrow> dumpState \<Rightarrow> val \<Rightarrow> val list \<Rightarrow> error + dumpState" where
  "dumpSlice n cm h d v xs = dumpSliceWith (dump n cm h) cm d v xs"

text \<open>\<open>fdump\<close> (dump.go, lines 434-449) on the writer content \<open>w0\<close>; a nil interface
  argument is \<open>None\<close>, and \<open>reflect.ValueOf\<close> of any other argument is its dynamic value.\<close>

definition newDumpState :: "ConfigState \<Rightarrow> string \<Rightarrow> dumpState" where
  "newDumpState c w0 =
     \<lparr>w = w0, depth = 0, pointers = Map.empty, ignoreNextType = False,
      ignoreNextIndent = False, cs = c, nodes = {}\<rparr>"

definition fdump :: "nat \<Rightarrow> common \<Rightarrow> heap \<Rightarrow> ConfigState \<Rightarrow> string \<Rightarrow> val option \<Rightarrow> error + string" where
  "fdump n cm h c w0 a =
     (case a of
        None \<Rightarrow> Inr (w0 @ interfaceBytes @ openParenBytes @ nilBytes @ closeParenBytes @ newlineBytes)
      | Some v \<Rightarrow>
          andThen (dump n cm h (newDumpState c w0) v False False) (\<lambda>d.
            Inr (w (Write newlineBytes d))))"

section \<open>walkPtr, walkSlice and walk\<close>

text \<open>
  The tracker-only traversal of walk.go, closed by fuel like \<open>dump\<close>.  \<open>walkPtr\<close>: lines
  23-61, its loop keeping \<open>ve\<close>, \<open>nilFound\<close> and \<open>cycleFound\<close>; \<open>walkSlice\<close>: lines 64-71;
  \<open>walk\<close>: lines 77-124.  The last argument of \<open>walk\<close> is not read by its body.
\<close>

type_synonym walkFn = "dumpState \<Rightarrow> val \<Rightarrow> bool \<Rightarrow> bool \<Rightarrow> nat \<Rightarrow> error + dumpState"

fun walkLoop :: "nat \<Rightarrow> heap \<Rightarrow> dumpState \<Rightarrow> val \<times> bool \<times> bool \<Rightarrow> error + (dumpState \<times> val \<times> bool \<times> bool)" where
  "walkLoop 0 h d (e, nilF, cycleF) =
     (if Kind e = Ptr then Inl OutOfFuel else Inr (d, e, nilF, cycleF))"
| "walkLoop (Suc n) h d (e, nilF, cycleF) =
     (case e of
        VPtr t None \<Rightarrow> Inr (d, e, True, cycleF)
      | VPtr t (Some addr) \<Rightarrow>
          if (case pointers d addr of Some pd \<Rightarrow> pd < depth d | None \<Rightarrow> False)
          then Inr (d, e, nilF, True)
          else
            (let d = d\<lparr>pointers := (pointers d)(addr \<mapsto> depth d)\<rparr>;
                 d = d\<lparr>nodes := insert (addr, t) (nodes d)\<rparr>
             in (case unwrapElem (h addr) of
                   None \<Rightarrow> Inr (d, h addr, True, cycleF)
                 | Some x \<Rightarrow>
                     andThen (Type x) (\<lambda>tx.
                       walkLoop n h (d\<lparr>nodes := insert (addr, tx) (nodes d)\<rparr>) (x, nilF, cycleF))))
      | _ \<Rightarrow> Inr (d, e, nilF, cycleF))"

definition walkUnpacked :: "walkFn \<Rightarrow> dumpState \<Rightarrow> val \<Rightarrow> error + dumpState" where
  "walkUnpacked rec d x =
     (case unpackValue x of (x', wasPtr, static) \<Rightarrow> rec d x' wasPtr static 0)"

definition walkPtrWith :: "walkFn \<Rightarrow> nat \<Rightarrow> heap \<Rightarrow> dumpState \<Rightarrow> val \<Rightarrow> error + dumpState" where
  "walkPtrWith rec n h d v =
     (let d = d\<lparr>pointers := purge (pointers d) (depth d)\<rparr> in
      andThen (walkLoop n h d (v, False, False)) (\<lambda>(d, e, nilF, cycleF).
        if \<not> nilF \<and> \<not> cycleF then rec d e True False 0 else Inr d))"

definition walkSliceWith :: "walkFn \<Rightarrow> dumpState \<Rightarrow> val list \<Rightarrow> error + dumpState" where
  "walkSliceWith rec d xs =
     (let d = d\<lparr>depth := depth d + 1\<rparr> in
      andThen (forEach xs (\<lambda>x d. walkUnpacked rec d x) d) (\<lambda>d.
        Inr (d\<lparr>depth := depth d - 1\<rparr>)))"

definition walkMap :: "walkFn \<Rightarrow> dumpState \<Rightarrow> (val \<times> val) list \<Rightarrow> error + dumpState" where
  "walkMap rec d kvs =
     (let d = d\<lparr>depth := depth d + 1\<rparr> in
      andThen (forEach (MapKeys kvs) (\<lambda>key d.
                 andThen (walkUnpacked rec d key) (\<lambda>d.
                   walkUnpacked rec d (MapIndex kvs key))) d) (\<lambda>d.
        Inr (d\<lparr>depth := depth d - 1\<rparr>)))"

definition walkStruct :: "walkFn \<Rightarrow> dumpState \<Rightarrow> (structField \<times> val) list \<Rightarrow> error + dumpState" where
  "walkStruct rec d fs =
     (let d = d\<lparr>depth := depth d + 1\<rparr> in
      andThen (forEach fs (\<lambda>(vtf, fv) d.
                 if IgnoreUnexported (cs d) \<and> fieldPkgPath vtf \<noteq> [] then Inr d
                 else walkUnpacked rec d fv) d) (\<lambda>d.
        Inr (d\<lparr>depth := depth d - 1\<rparr>)))"

definition walkWith :: "walkFn \<Rightarrow> nat \<Rightarrow> heap \<Rightarrow> walkFn" where
  "walkWith rec n h d v wasPtr static addr =
     (let kind = Kind v in
      if kind = Invalid then Inr d
      else if kind = Ptr then walkPtrWith rec n h d v
      else
       (case v of
          VSlice t (Some xs) \<Rightarrow> walkSliceWith rec d xs
        | VArray t xs \<Rightarrow> walkSliceWith rec d xs
        | VMap t (Some kvs) \<Rightarrow> walkMap rec d kvs
        | VStruct t fs \<Rightarrow> walkStruct rec d fs
        | _ \<Rightarrow> Inr d))"

fun walk :: "nat \<Rightarrow> heap \<Rightarrow> walkFn" where
  "walk 0 h d v wasPtr static addr = Inl OutOfFuel"
| "walk (Suc n) h d v wasPtr static addr = walkWith (walk n h) n h d v wasPtr static addr"

definition walkPtr :: "nat \<Rightarrow> heap \<Rightarrow> dumpState \<Rightarrow> val \<Rightarrow> error + dumpState" where
  "walkPtr n h d v = walkPtrWith (walk n h) n h d v"

definition walkSlice :: "nat \<Rightarrow> heap \<Rightarrow> dumpState \<Rightarrow> val list \<Rightarrow> error + dumpState" where
  "walkSlice n h d xs = walkSliceWith (walk n h) d xs"

section \<open>Example values\<close>

text \<open>
  An instance of the parameters for evaluating the model on concrete values: decimal
  and hexadecimal printers that agree with the expected outputs of the package's tests,
  and stand-ins for the markers and printers that those tests do not determine.
\<close>

fun digitsOf :: "nat \<Rightarrow> nat \<Rightarrow> nat \<Rightarrow> string" where
  "digitsOf 0 b n = []"
| "digitsOf (Suc f) b n =
     (if n < b then [''0123456789abcdef'' ! n]
      else digitsOf f b (n div b) @ [''0123456789abcdef'' ! (n mod b)])"

definition showNat :: "nat \<Rightarrow> nat \<Rightarrow> string" where
  "showNat b n = digitsOf (Suc n) b n"

definition exampleCommon :: common where
  "exampleCommon =
     \<lparr>circularBytes = ''<circular>'', invalidAngleBytes = ''<invalid>'',
      openCommentBytes = '' /*'', closeCommentBytes = ''*/'', pointerChainBytes = ''->'',
      printBool = (\<lambda>b. if b then ''true'' else ''false''),
      printInt = (\<lambda>i b. if i < 0 then ''-'' @ showNat b (nat (- i)) else showNat b (nat i)),
      printUint = (\<lambda>u b. showNat b u),
      printFloat = (\<lambda>f bits elide. ''<float>''),
      printComplex = (\<lambda>re im bits. ''<complex>''),
      printHexPtr = (\<lambda>p pre. (if pre then ''0x'' else []) @ showNat 16 p),
      hexDump = (\<lambda>buf ind width cmt. ''<hexdump>''),
      Quote = (\<lambda>s. [CHR 0x22] @ s @ [CHR 0x22]),
      fmtV = (\<lambda>v. ''<value>''),
      convertUint8 = (\<lambda>v. uintOf v mod 256)\<rparr>"

text \<open>The configuration that \<open>NewDefaultConfig\<close> is documented to return.\<close>

definition defaultConfig :: ConfigState where
  "defaultConfig =
     \<lparr>Indent = '' '', SortKeys = False, IgnoreUnexported = False, ElideType = False,
      BytesWidth = 16, CommentBytes = True, CommentPointers = False\<rparr>"

definition namedType :: "string \<Rightarrow> string \<Rightarrow> rtype" where
  "namedType pkg nm =
     \<lparr>PkgPath = pkg, Name = nm, typeString = (if pkg = [] then nm else pkg @ ''.'' @ nm)\<rparr>"

definition unnamedType :: "string \<Rightarrow> rtype" where
  "unnamedType s = \<lparr>PkgPath = [], Name = [], typeString = s\<rparr>"

definition field :: "string \<Rightarrow> string \<Rightarrow> structField" where
  "field nm pkg = \<lparr>fieldName = nm, fieldPkgPath = pkg\<rparr>"

text \<open>
  \<^verbatim>\<open>type Inner struct{ x int }; type Wrap struct{ c, e *Inner }\<close>,
  \<^verbatim>\<open>type Outer struct{ a *Inner; b Wrap }\<close>, \<^verbatim>\<open>in := &Inner{}\<close> (at address 1) and
  the value \<^verbatim>\<open>Outer{a: in, b: Wrap{c: in, e: in}}\<close>: three pointers to one struct,
  and no cycle.
\<close>

definition innerVal :: val where
  "innerVal =
     VStruct (namedType ''main'' ''Inner'') [(field ''x'' ''main'', VInt (namedType [] ''int'') I 0)]"

definition sharedHeap :: heap where
  "sharedHeap = (\<lambda>a. if a = 1 then innerVal else VInvalid)"

definition innerPtr :: val where
  "innerPtr = VPtr (unnamedType ''*main.Inner'') (Some 1)"

definition sharedVal :: val where
  "sharedVal =
     VStruct (namedType ''main'' ''Outer'')
       [(field ''a'' ''main'', innerPtr),
        (field ''b'' ''main'',
           VStruct (namedType ''main'' ''Wrap'')
             [(field ''c'' ''main'', innerPtr), (field ''e'' ''main'', innerPtr)])]"

text \<open>
  \<^verbatim>\<open>var i interface{}; i = &i\<close>, with \<open>i\<close> at address 1: the argument of \<open>Dump(i)\<close> is the
  pointer \<open>&i\<close>, and the memory at address 1 is the interface \<open>i\<close> that holds that
  pointer.  And \<^verbatim>\<open>type S struct{ F interface{} }; var s S; s.F = &s.F\<close>, with \<open>s.F\<close> at
  address 1: the argument of \<open>Dump(s)\<close> is the struct.
\<close>

definition selfPtr :: val where
  "selfPtr = VPtr (unnamedType ''*interface {}'') (Some 1)"

definition selfHeap :: heap where
  "selfHeap = (\<lambda>a. if a = 1 then VInterface (unnamedType ''interface {}'') (Some selfPtr)
                     else VInvalid)"

definition selfFieldVal :: val where
  "selfFieldVal =
     VStruct (namedType ''main'' ''S'')
       [(field ''F'' [], VInterface (unnamedType ''interface {}'') (Some selfPtr))]"

text \<open>
  \<^verbatim>\<open>type Pair struct{ a *int; b int }\<close>, \<^verbatim>\<open>x := 7\<close> at address 1 and the value
  \<^verbatim>\<open>Pair{a: &x, b: 2}\<close>; \<open>pairRun\<close> is its complete top-level dump, as \<open>fdump\<close> starts it.
\<close>

definition intHeap :: heap where
  "intHeap = (\<lambda>a. if a = 1 then VInt (namedType [] ''int'') I 7 else VInvalid)"

definition intPtr :: val where
  "intPtr = VPtr (unnamedType ''*int'') (Some 1)"

definition pairVal :: val where
  "pairVal =
     VStruct (namedType ''main'' ''Pair'')
       [(field ''a'' ''main'', intPtr), (field ''b'' ''main'', VInt (namedType [] ''int'') I 2)]"

definition pairRun :: "error + dumpState" where
  "pairRun = dump 4 exampleCommon intHeap (newDumpState defaultConfig []) pairVal False False"

text \<open>The chain walk of \<open>dumpPtr\<close> on \<open>&x\<close> at depth 2, entered with a table that holds
  address 5 at depth 0, address 6 at depth 2 and address 1 at depth 3.\<close>

definition chainStart :: dumpState where
  "chainStart =
     (newDumpState defaultConfig [])\<lparr>depth := 2, pointers := [5 \<mapsto> 0, 6 \<mapsto> 2, 1 \<mapsto> 3]\<rparr>"

definition chainRun :: "error + (dumpState \<times> ptrLocals)" where
  "chainRun =
     derefLoop 3 intHeap (chainStart\<lparr>pointers := purge (pointers chainStart) (depth chainStart)\<rparr>)
       \<lparr>ve = intPtr, pointerChain = [], indirects = 0, nilFound = False, cycleFound = False\<rparr>"

section \<open>Properties of the traversal functions\<close>

text \<open>A traversal function keeps the depth when every call that returns leaves
  \<open>depth\<close> as it found it.\<close>

definition keepsDepth :: "dumpFn \<Rightarrow> bool" where
  "keepsDepth rec =
     (\<forall>d v wasPtr static d'. rec d v wasPtr static = Inr d' \<longrightarrow> depth d' = depth d)"

definition keepsWalkDepth :: "walkFn \<Rightarrow> bool" where
  "keepsWalkDepth rec =
     (\<forall>d v wasPtr static addr d'. rec d v wasPtr static addr = Inr d' \<longrightarrow> depth d' = depth d)"

section \<open>Basic facts\<close>

lemmas consts_defs = openParenBytes_def closeParenBytes_def nilBytes_def ampersandBytes_def
  interfaceBytes_def interfaceTypeBytes_def hexZeroBytes_def colonSpaceBytes_def closeBraceBytes_def
  newlineBytes_def commaNewlineBytes_def openBraceNewlineBytes_def

lemma andThen_Inr_iff: "andThen r f = Inr y \<longleftrightarrow> (\<exists>x. r = Inr x \<and> f x = Inr y)"
  by (cases r) (auto simp: andThen_def)

lemma andThen_Inl_iff:
  "andThen r f = Inl e \<longleftrightarrow> (r = Inl e \<or> (\<exists>x. r = Inr x \<and> f x = Inl e))"
  by (cases r) (auto simp: andThen_def)

lemma andThen_Inl [simp]: "andThen (Inl e) f = Inl e"
  by (simp add: andThen_def)

lemma andThen_Inr [simp]: "andThen (Inr x) f = f x"
  by (simp add: andThen_def)

lemma depth_Write [simp]: "depth (Write bs d) = depth d"
  by (simp add: Write_def)

lemma depth_writeChain [simp]: "depth (writeChain cm i as d) = depth d"
  by (induction as arbitrary: i d) auto

lemma indent_depth: "indent d = Inr d' \<Longrightarrow> depth d' = depth d"
  by (auto simp: indent_def andThen_Inr_iff split: if_splits)

text \<open>An invariant of the loop body is an invariant of the loop.\<close>

lemma forEach_inv:
  assumes "\<And>x s s'. x \<in> set xs \<Longrightarrow> f x s = Inr s' \<Longrightarrow> P s \<Longrightarrow> P s'"
  shows "forEach xs f s = Inr s' \<Longrightarrow> P s \<Longrightarrow> P s'"
  using assms
proof (induction xs arbitrary: s)
  case Nil
  then show ?case by simp
next
  case (Cons x xs)
  from Cons.prems(1) obtain s1 where s1: "f x s = Inr s1" and rest: "forEach xs f s1 = Inr s'"
    by (auto simp: andThen_Inr_iff)
  have "P s1" using Cons.prems(3)[OF _ s1 Cons.prems(2)] by simp
  then show ?case using Cons.IH[OF rest] Cons.prems(3) by auto
qed

section \<open>The depth counter\<close>

lemma derefLoop_depth:
  "derefLoop n h d l = Inr (d', l') \<Longrightarrow> depth d' = depth d"
proof (induction n arbitrary: d l)
  case 0
  then show ?case by (auto split: if_splits)
next
  case (Suc n)
  show ?case
  proof (cases "ve l")
    case (VPtr t p)
    show ?thesis
    proof (cases p)
      case None
      then show ?thesis using Suc.prems VPtr by auto
    next
      case (Some addr)
      then show ?thesis using Suc.prems VPtr
        by (auto simp: Let_def split: if_splits option.splits dest!: Suc.IH)
    qed
  qed (use Suc.prems in auto)
qed

lemma dumpUnpacked_depth:
  "keepsDepth rec \<Longrightarrow> dumpUnpacked rec d x = Inr d' \<Longrightarrow> depth d' = depth d"
  by (auto simp: dumpUnpacked_def keepsDepth_def split: prod.splits)

lemma dumpPtrWith_depth:
  assumes "keepsDepth rec" "dumpPtrWith rec n cm h d v = Inr d'"
  shows "depth d' = depth d"
  using assms
  by (auto simp: dumpPtrWith_def Let_def andThen_Inr_iff keepsDepth_def
           split: if_splits prod.splits dest!: derefLoop_depth)

lemma dumpSliceWith_depth:
  assumes "keepsDepth rec" "dumpSliceWith rec cm d v xs = Inr d'"
  shows "depth d' = depth d"
proof -
  from assms(2) obtain hex where hex: "hexBuffer cm v xs = Inr hex"
    and body: "(case hex of
         Some buf \<Rightarrow>
           andThen (Repeat (Indent (cs d)) (depth d)) (\<lambda>ind.
             Inr (Write (hexDump cm buf ind (BytesWidth (cs d)) (CommentBytes (cs d))) d))
       | None \<Rightarrow>
           forEach xs (\<lambda>vi d.
             andThen (dumpUnpacked rec d vi) (\<lambda>d. Inr (Write commaNewlineBytes d))) d) = Inr d'"
    by (auto simp: dumpSliceWith_def andThen_Inr_iff)
  show ?thesis
  proof (cases hex)
    case None
    with body have fe: "forEach xs (\<lambda>vi d.
             andThen (dumpUnpacked rec d vi) (\<lambda>d. Inr (Write commaNewlineBytes d))) d = Inr d'"
      by simp
    show ?thesis
      by (rule forEach_inv[where P="\<lambda>s. depth s = depth d", OF _ fe])
         (auto simp: andThen_Inr_iff dest!: dumpUnpacked_depth[OF assms(1)])
  next
    case (Some buf)
    with body show ?thesis by (auto simp: andThen_Inr_iff)
  qed
qed

lemma dumpElems_depth:
  assumes "keepsDepth rec" "dumpElems rec cm d v xs = Inr d'"
  shows "depth d' = depth d"
  using assms(2)
  by (auto simp: dumpElems_def Let_def andThen_Inr_iff
           dest!: dumpSliceWith_depth[OF assms(1)] indent_depth)

lemma dumpMap_depth:
  assumes "keepsDepth rec" "dumpMap rec d kvs = Inr d'"
  shows "depth d' = depth d"
proof -
  define d0 where "d0 = (Write openBraceNewlineBytes d)\<lparr>depth := depth d + 1\<rparr>"
  define keys where "keys = (if SortKeys (cs d0) then sortValues (MapKeys kvs) else MapKeys kvs)"
  define f where "f = (\<lambda>key d.
             andThen (dumpUnpacked rec d key) (\<lambda>d.
             let d = Write colonSpaceBytes d;
                 d = d\<lparr>ignoreNextIndent := True\<rparr>
             in andThen (dumpUnpacked rec d (MapIndex kvs key)) (\<lambda>d.
                Inr (Write commaNewlineBytes d))))"
  from assms(2) obtain d1 d2 where fe: "forEach keys f d0 = Inr d1"
    and ind: "indent (d1\<lparr>depth := depth d1 - 1\<rparr>) = Inr d2" and d': "d' = Write closeBraceBytes d2"
    by (auto simp: dumpMap_def Let_def andThen_Inr_iff d0_def keys_def f_def)
  have "depth d1 = depth d0"
    by (rule forEach_inv[where P="\<lambda>s. depth s = depth d0", OF _ fe])
       (auto simp: f_def Let_def andThen_Inr_iff dest!: dumpUnpacked_depth[OF assms(1)])
  then show ?thesis using ind d' by (auto simp: d0_def dest!: indent_depth)
qed

lemma dumpStruct_depth:
  assumes "keepsDepth rec" "dumpStruct rec d fs = Inr d'"
  shows "depth d' = depth d"
proof -
  define d0 where "d0 = (Write openBraceNewlineBytes d)\<lparr>depth := depth d + 1\<rparr>"
  define f :: "structField \<times> val \<Rightarrow> dumpState \<Rightarrow> error + dumpState" where "f = (\<lambda>(vtf, fv) d.
             if IgnoreUnexported (cs d) \<and> fieldPkgPath vtf \<noteq> [] then Inr d
             else
              andThen (indent d) (\<lambda>d.
              let d = Write (fieldName vtf) d;
                  d = Write colonSpaceBytes d;
                  d = d\<lparr>ignoreNextIndent := True\<rparr>
              in andThen (dumpUnpacked rec d fv) (\<lambda>d.
                 Inr (Write commaNewlineBytes d))))"
  from assms(2) obtain d1 d2 where fe: "forEach fs f d0 = Inr d1"
    and ind: "indent (d1\<lparr>depth := depth d1 - 1\<rparr>) = Inr d2" and d': "d' = Write closeBraceBytes d2"
    by (auto simp: dumpStruct_def Let_def andThen_Inr_iff d0_def f_def)
  have "depth d1 = depth d0"
    by (rule forEach_inv[where P="\<lambda>s. depth s = depth d0", OF _ fe])
       (auto simp: f_def Let_def andThen_Inr_iff split: if_splits
             dest!: dumpUnpacked_depth[OF assms(1)] indent_depth)
  then show ?thesis using ind d' by (auto simp: d0_def dest!: indent_depth)
qed

lemma dumpSwitch_depth:
  assumes "keepsDepth rec" "dumpSwitch rec cm d v wt = Inr d'"
  shows "depth d' = depth d"
  using assms(2)
  by (cases v)
     (auto simp: dumpSwitch_def split: option.splits
           dest: dumpElems_depth[OF assms(1)] dumpMap_depth[OF assms(1)]
                 dumpStruct_depth[OF assms(1)])

lemma dumpWith_depth:
  assumes "keepsDepth rec" "dumpWith rec n cm h d v wasPtr static = Inr d'"
  shows "depth d' = depth d"
  using assms(2)
  by (auto simp: dumpWith_def Let_def andThen_Inr_iff split: if_splits
           dest!: dumpSwitch_depth[OF assms(1)] dumpPtrWith_depth[OF assms(1)] indent_depth)

lemma keepsDepth_dump: "keepsDepth (dump n cm h)"
proof (induction n)
  case 0
  show ?case by (simp add: keepsDepth_def)
next
  case (Suc n)
  show ?case
    unfolding keepsDepth_def
    by (auto dest: dumpWith_depth[OF Suc])
qed

text \<open>The same for the tracker-only traversal.\<close>

lemma walkLoop_depth:
  "walkLoop n h d s = Inr (d', s') \<Longrightarrow> depth d' = depth d"
proof (induction n arbitrary: d s)
  case 0
  then show ?case by (cases s) (auto split: if_splits)
next
  case (Suc n)
  obtain e nilF cycleF where s: "s = (e, nilF, cycleF)" by (cases s)
  show ?case
  proof (cases "\<exists>t addr. e = VPtr t (Some addr)")
    case False
    then have "walkLoop (Suc n) h d s = Inr (d, e, nilF \<or> (\<exists>t. e = VPtr t None), cycleF)"
      unfolding s by (cases e) (auto split: option.splits)
    with Suc.prems show ?thesis by simp
  next
    case True
    then obtain t addr where e: "e = VPtr t (Some addr)" by blast
    define d2 where "d2 = d\<lparr>pointers := (pointers d)(addr \<mapsto> depth d), nodes := insert (addr, t) (nodes d)\<rparr>"
    show ?thesis
    proof (cases "case pointers d addr of Some pd \<Rightarrow> pd < depth d | None \<Rightarrow> False")
      case True
      with Suc.prems show ?thesis by (simp add: s e)
    next
      case nocyc: False
      show ?thesis
      proof (cases "unwrapElem (h addr)")
        case None
        with Suc.prems nocyc show ?thesis by (auto simp: s e Let_def)
      next
        case (Some x)
        with Suc.prems nocyc obtain tx where
          "walkLoop n h (d2\<lparr>nodes := insert (addr, tx) (nodes d2)\<rparr>) (x, nilF, cycleF) = Inr (d', s')"
          by (auto simp: s e Let_def andThen_Inr_iff d2_def)
        from Suc.IH[OF this] show ?thesis by (simp add: d2_def)
      qed
    qed
  qed
qed

lemma walkUnpacked_depth:
  "keepsWalkDepth rec \<Longrightarrow> walkUnpacked rec d x = Inr d' \<Longrightarrow> depth d' = depth d"
  by (auto simp: walkUnpacked_def keepsWalkDepth_def split: prod.splits)

lemma walkPtrWith_depth:
  assumes "keepsWalkDepth rec" "walkPtrWith rec n h d v = Inr d'"
  shows "depth d' = depth d"
proof -
  define d0 where "d0 = d\<lparr>pointers := purge (pointers d) (depth d)\<rparr>"
  from assms(2) obtain r where loop: "walkLoop n h d0 (v, False, False) = Inr r"
    and rest: "(case r of (d, e, nilF, cycleF) \<Rightarrow>
                  if \<not> nilF \<and> \<not> cycleF then rec d e True False 0 else Inr d) = Inr d'"
    unfolding walkPtrWith_def Let_def d0_def andThen_Inr_iff by blast
  obtain d1 e nilF cycleF where r: "r = (d1, e, nilF, cycleF)" by (cases r)
  have "depth d1 = depth d0" using walkLoop_depth loop r by blast
  moreover have "depth d' = depth d1"
    using rest assms(1) unfolding r keepsWalkDepth_def by (simp split: if_splits)
  ultimately show ?thesis by (simp add: d0_def)
qed

lemma walkSliceWith_depth:
  assumes "keepsWalkDepth rec" "walkSliceWith rec d xs = Inr d'"
  shows "depth d' = depth d"
proof -
  define d0 where "d0 = d\<lparr>depth := depth d + 1\<rparr>"
  from assms(2) obtain d1 where fe: "forEach xs (\<lambda>x d. walkUnpacked rec d x) d0 = Inr d1"
    and d': "d' = d1\<lparr>depth := depth d1 - 1\<rparr>"
    by (auto simp: walkSliceWith_def Let_def andThen_Inr_iff d0_def)
  have "depth d1 = depth d0"
    by (rule forEach_inv[where P="\<lambda>s. depth s = depth d0", OF _ fe])
       (auto dest!: walkUnpacked_depth[OF assms(1)])
  then show ?thesis using d' by (simp add: d0_def)
qed

lemma walkMap_depth:
  assumes "keepsWalkDepth rec" "walkMap rec d kvs = Inr d'"
  shows "depth d' = depth d"
proof -
  define d0 where "d0 = d\<lparr>depth := depth d + 1\<rparr>"
  define f where "f = (\<lambda>key d.
                 andThen (walkUnpacked rec d key) (\<lambda>d.
                   walkUnpacked rec d (MapIndex kvs key)))"
  from assms(2) obtain d1 where fe: "forEach (MapKeys kvs) f d0 = Inr d1"
    and d': "d' = d1\<lparr>depth := depth d1 - 1\<rparr>"
    by (auto simp: walkMap_def Let_def andThen_Inr_iff d0_def f_def)
  have "depth d1 = depth d0"
    by (rule forEach_inv[where P="\<lambda>s. depth s = depth d0", OF _ fe])
       (auto simp: f_def andThen_Inr_iff dest!: walkUnpacked_depth[OF assms(1)])
  then show ?thesis using d' by (simp add: d0_def)
qed

lemma walkStruct_depth:
  assumes "keepsWalkDepth rec" "walkStruct rec d fs = Inr d'"
  shows "depth d' = depth d"
proof -
  define d0 where "d0 = d\<lparr>depth := depth d + 1\<rparr>"
  define f :: "structField \<times> val \<Rightarrow> dumpState \<Rightarrow> error + dumpState" where "f = (\<lambda>(vtf, fv) d.
                 if IgnoreUnexported (cs d) \<and> fieldPkgPath vtf \<noteq> [] then Inr d
                 else walkUnpacked rec d fv)"
  from assms(2) obtain d1 where fe: "forEach fs f d0 = Inr d1"
    and d': "d' = d1\<lparr>depth := depth d1 - 1\<rparr>"
    by (auto simp: walkStruct_def Let_def andThen_Inr_iff d0_def f_def)
  have "depth d1 = depth d0"
    by (rule forEach_inv[where P="\<lambda>s. depth s = depth d0", OF _ fe])
       (auto simp: f_def split: if_splits dest!: walkUnpacked_depth[OF assms(1)])
  then show ?thesis using d' by (simp add: d0_def)
qed

lemma walkWith_depth:
  assumes "keepsWalkDepth rec" "walkWith rec n h d v wasPtr static addr = Inr d'"
  shows "depth d' = depth d"
  using assms(2)
  by (cases v)
     (auto simp: walkWith_def Let_def split: if_splits option.splits
           dest: walkPtrWith_depth[OF assms(1)] walkSliceWith_depth[OF assms(1)]
                 walkMap_depth[OF assms(1)] walkStruct_depth[OF assms(1)])

lemma keepsWalkDepth_walk: "keepsWalkDepth (walk n h)"
proof (induction n)
  case 0
  show ?case by (simp add: keepsWalkDepth_def)
next
  case (Suc n)
  show ?case
    unfolding keepsWalkDepth_def
    by (auto dest: walkWith_depth[OF Suc])
qed

text \<open>
  C10.  Every call of \<open>dump\<close> that returns leaves \<open>depth\<close> equal to its value on entry:
  the slice/array, map and struct arms increment it once after the opening brace and
  decrement it once before the closing brace, and nothing else changes it.  The same
  holds of every call of \<open>walk\<close>.  So the depth is 0 again after a top-level call.
\<close>

theorem dump_restores_depth:
  "(dump n cm h d v wasPtr static = Inr d' \<longrightarrow> depth d' = depth d) \<and>
   (walk n h d v wasPtr static addr = Inr d'' \<longrightarrow> depth d'' = depth d)"
  using keepsDepth_dump[of n cm h] keepsWalkDepth_walk[of n h]
  by (auto simp: keepsDepth_def keepsWalkDepth_def)

theorem dump_restores_depth_witness:
  "\<not> isl (dump 5 exampleCommon sharedHeap (newDumpState defaultConfig []) sharedVal False False) \<and>
   depth (projr (dump 5 exampleCommon sharedHeap (newDumpState defaultConfig []) sharedVal
                   False False)) = 0 \<and>
   \<not> isl (walk 5 sharedHeap (newDumpState defaultConfig []) sharedVal False False 0) \<and>
   depth (projr (walk 5 sharedHeap (newDumpState defaultConfig []) sharedVal False False 0)) = 0"
proof -
  let ?d0 = "newDumpState defaultConfig []"
  let ?r = "dump 5 exampleCommon sharedHeap ?d0 sharedVal False False"
  let ?q = "walk 5 sharedHeap ?d0 sharedVal False False 0"
  have r: "\<not> isl ?r" by code_simp
  have q: "\<not> isl ?q" by code_simp
  from r obtain d' where d': "?r = Inr d'" by (cases ?r) auto
  from q obtain d'' where d'': "?q = Inr d''" by (cases ?q) auto
  have "depth d' = depth ?d0" and "depth d'' = depth ?d0"
    using dump_restores_depth[of 5 exampleCommon sharedHeap ?d0 sharedVal False False d' 0 d'']
      d' d'' by auto
  then show ?thesis using r q d' d'' by (simp add: newDumpState_def)
qed

section \<open>The nil argument\<close>

text \<open>
  C9.  \<open>fdump\<close> of a nil interface writes exactly \<open>interface{}(nil)\<close> and one newline,
  whatever the fuel, the memory and the configuration: no \<open>dumpState\<close> is created, so
  nothing is traversed and no pointer table is read or written.
\<close>

theorem fdump_nil:
  "fdump n cm h c w0 None = Inr (w0 @ ''interface{}(nil)'' @ [CHR 0x0A])"
  by (simp add: fdump_def consts_defs)

section \<open>Shared pointers\<close>

text \<open>
  C2.  The dump of \<^verbatim>\<open>Outer{a: in, b: Wrap{c: in, e: in}}\<close>.  The sibling fields \<open>c\<close> and
  \<open>e\<close> point at the struct that field \<open>a\<close> points at, and nothing points back: there is
  no cycle.  The entry that the dump of \<open>a\<close> recorded at depth 1 is still in the table when
  \<open>c\<close> and \<open>e\<close> are dumped at depth 2, where the purge removes only entries of depth 2 and
  more, so both are rendered as circular references and neither referent is shown.
\<close>

theorem shared_siblings_flagged:
  "fdump 6 exampleCommon sharedHeap defaultConfig [] (Some sharedVal) =
   Inr (''main.Outer{'' @ [CHR 0x0A] @
        '' a: &main.Inner{'' @ [CHR 0x0A] @
        ''  x: int(0),'' @ [CHR 0x0A] @
        '' },'' @ [CHR 0x0A] @
        '' b: main.Wrap{'' @ [CHR 0x0A] @
        ''  c: (*main.Inner)'' @ circularBytes exampleCommon @ '','' @ [CHR 0x0A] @
        ''  e: (*main.Inner)'' @ circularBytes exampleCommon @ '','' @ [CHR 0x0A] @
        '' },'' @ [CHR 0x0A] @
        ''}'' @ [CHR 0x0A])"
  by code_simp

section \<open>Chains that return to themselves\<close>

lemma derefLoop_selfcycle:
  assumes "unwrapElem (h a) = Some (VPtr t (Some a))"
  shows "ve l = VPtr t (Some a) \<Longrightarrow> \<forall>pd. pointers d a = Some pd \<longrightarrow> \<not> pd < depth d \<Longrightarrow>
         derefLoop n h d l = Inl OutOfFuel"
proof (induction n arbitrary: d l)
  case 0
  then show ?case by simp
next
  case (Suc n)
  have nocyc: "\<not> (case pointers d a of Some pd \<Rightarrow> pd < depth d | None \<Rightarrow> False)"
    using Suc.prems(2) by (auto split: option.splits)
  show ?case
    using Suc.prems(1) nocyc assms
    by (simp add: Let_def Suc.IH)
qed

lemma purge_None: "\<forall>pd. ps k = Some pd \<longrightarrow> dp \<le> pd \<Longrightarrow> purge ps dp k = None"
  by (auto simp: purge_def split: option.splits)

lemma dumpPtrWith_selfcycle:
  assumes "unwrapElem (h a) = Some (VPtr t (Some a))"
    and "\<forall>pd. pointers d a = Some pd \<longrightarrow> depth d \<le> pd"
  shows "dumpPtrWith rec n cm h d (VPtr t (Some a)) = Inl OutOfFuel"
proof -
  let ?d = "d\<lparr>pointers := purge (pointers d) (depth d)\<rparr>"
  have "derefLoop n h ?d
          \<lparr>ve = VPtr t (Some a), pointerChain = [], indirects = 0, nilFound = False,
           cycleFound = False\<rparr> = Inl OutOfFuel"
    by (rule derefLoop_selfcycle[of h a t, OF assms(1)]) (simp_all add: purge_None[of "pointers d" a "depth d", OF assms(2)])
  then show ?thesis by (simp add: dumpPtrWith_def Let_def)
qed

lemma dump_selfcycle:
  assumes "unwrapElem (h a) = Some (VPtr t (Some a))"
    and "\<forall>pd. pointers d a = Some pd \<longrightarrow> depth d \<le> pd"
    and "0 \<le> depth d"
  shows "dump n cm h d (VPtr t (Some a)) wasPtr static = Inl OutOfFuel"
proof (cases n)
  case 0
  then show ?thesis by simp
next
  case (Suc m)
  have "\<And>d1. indent d = Inr d1 \<Longrightarrow> dumpPtrWith (dump m cm h) m cm h d1 (VPtr t (Some a)) = Inl OutOfFuel"
    using assms(2) 
    by (intro dumpPtrWith_selfcycle[of h a t, OF assms(1)])
       (auto simp: indent_def Repeat_def Write_def split: if_splits)
  moreover have "\<exists>d1. indent d = Inr d1"
    using assms(3) by (simp add: indent_def Repeat_def)
  ultimately show ?thesis
    using Suc by (auto simp: dumpWith_def)
qed

lemma walkLoop_selfcycle:
  assumes "unwrapElem (h a) = Some (VPtr t (Some a))"
  shows "\<forall>pd. pointers d a = Some pd \<longrightarrow> \<not> pd < depth d \<Longrightarrow>
         walkLoop n h d (VPtr t (Some a), nilF, cycleF) = Inl OutOfFuel"
proof (induction n arbitrary: d)
  case 0
  then show ?case by simp
next
  case (Suc n)
  have nocyc: "\<not> (case pointers d a of Some pd \<Rightarrow> pd < depth d | None \<Rightarrow> False)"
    using Suc.prems by (auto split: option.splits)
  show ?case
    using nocyc assms
    by (simp add: Let_def Suc.IH)
qed

lemma walk_selfcycle:
  assumes "unwrapElem (h a) = Some (VPtr t (Some a))"
    and "\<forall>pd. pointers d a = Some pd \<longrightarrow> depth d \<le> pd"
  shows "walk n h d (VPtr t (Some a)) wasPtr static addr = Inl OutOfFuel"
proof (cases n)
  case 0
  then show ?thesis by simp
next
  case (Suc m)
  let ?d = "d\<lparr>pointers := purge (pointers d) (depth d)\<rparr>"
  have "walkLoop m h ?d (VPtr t (Some a), False, False) = Inl OutOfFuel"
    by (rule walkLoop_selfcycle[of h a t, OF assms(1)]) (simp add: purge_None[of "pointers d" a "depth d", OF assms(2)])
  then show ?thesis using Suc by (simp add: walkWith_def walkPtrWith_def Let_def)
qed

lemma selfHeap_unwrap:
  "unwrapElem (selfHeap 1) = Some (VPtr (unnamedType ''*interface {}'') (Some 1))"
  by (simp add: selfHeap_def unwrapElem_def selfPtr_def)

text \<open>
  C1.  \<^verbatim>\<open>var i interface{}; i = &i; Dump(i)\<close>: a finite value with one reference cycle.
  The loop of \<open>dumpPtr\<close> records the address at the current depth, follows the pointer
  and unpacks the interface, and is at the same pointer again; the check asks for a
  depth strictly less than the current one and so never fires.  No amount of fuel lets
  \<open>fdump\<close> return, and none lets \<open>walk\<close> return.
\<close>

theorem self_pointer_diverges:
  "fdump n cm selfHeap c w0 (Some selfPtr) = Inl OutOfFuel \<and>
   walk n selfHeap (newDumpState c w0) selfPtr False False 0 = Inl OutOfFuel"
proof -
  have "dump n cm selfHeap (newDumpState c w0) selfPtr False False = Inl OutOfFuel"
    unfolding selfPtr_def
    by (rule dump_selfcycle[of selfHeap 1, OF selfHeap_unwrap]) (simp_all add: newDumpState_def)
  moreover have "walk n selfHeap (newDumpState c w0) selfPtr False False 0 = Inl OutOfFuel"
    unfolding selfPtr_def
    by (rule walk_selfcycle[of selfHeap 1, OF selfHeap_unwrap]) (simp add: newDumpState_def)
  ultimately show ?thesis by (simp add: fdump_def)
qed

text \<open>
  C3.  \<^verbatim>\<open>var s S; s.F = &s.F; Dump(s)\<close>: the reference chain of field \<open>F\<close> returns to the
  address it started from.  No circular-reference marker is ever written: the dump
  does not return, for any amount of fuel.
\<close>

theorem self_field_never_marked:
  "fdump n cm selfHeap c w0 (Some selfFieldVal) = Inl OutOfFuel"
proof (cases n)
  case 0
  then show ?thesis by (simp add: fdump_def)
next
  case (Suc m)
  have rec: "\<And>d. depth d = 1 \<Longrightarrow> pointers d = Map.empty \<Longrightarrow>
      dump m cm selfHeap d selfPtr False False = Inl OutOfFuel"
    unfolding selfPtr_def
    by (rule dump_selfcycle[of selfHeap 1, OF selfHeap_unwrap]) simp_all
  have "dump (Suc m) cm selfHeap (newDumpState c w0) selfFieldVal False False = Inl OutOfFuel"
    by (simp add: dumpWith_def selfFieldVal_def newDumpState_def field_def Let_def
          dumpSwitch_def dumpStruct_def dumpUnpacked_def unpackValue_def indent_def Repeat_def
          Write_def rec)
  then show ?thesis using Suc by (simp add: fdump_def)
qed

end
